theory Spec2Isabelle
  imports Complex_Main "HOL-Library.Sublist"
begin

section \<open>JavaScript values and markup\<close>

text \<open>
  The three source files build plain JavaScript objects and JSX elements. A JSX element
  is a tag, its attributes in source order and its children; a child is an element, a
  piece of text or a number placed by a \<^verbatim>\<open>{...}\<close> expression. Strings are byte lists
  in UTF-8, so a character outside ASCII is written as its bytes.
\<close>

datatype node =
    Element string "(string \<times> string) list" "node list"
  | Text string
  | Number int

datatype jsvalue =
    Undefined
  | JBool bool
  | JString string
  | JArray "jsvalue list"
  | JObject "(string \<times> jsvalue) list"
  | JElement node

section \<open>The scroll-to-top widget (src/components/ScrollTop/ScrollTopComp.jsx)\<close>

subsection \<open>The browser and the component runtime\<close>

text \<open>
  The widget talks to three things outside its own file: the document (it reads
  \<^verbatim>\<open>document.documentElement.scrollTop\<close>), the window (it calls
  \<^verbatim>\<open>addEventListener\<close> and \<^verbatim>\<open>scrollTo\<close>) and the component runtime (it calls
  \<^verbatim>\<open>useState\<close> and the setter that \<^verbatim>\<open>useState\<close> hands out). They are modelled as one
  record that every function takes and returns.

  Every execution of the component body evaluates its two arrow functions anew, so each
  execution yields function objects with a new identity. A function object is therefore
  a constructor naming the arrow function, with a number for its identity; the scroll
  handler also carries the component instance whose setter it closes over.
\<close>

datatype closure =
    ToggleVisibleFn (owner: nat) (ident: nat)
  | ScrollToTopFn (ident: nat)

datatype scroll_behavior = Auto | Instant | Smooth

record scroll_to_options =
  top' :: real
  behavior :: scroll_behavior

datatype call =
    AddEventListener string closure
  | RemoveEventListener string closure
  | ScrollTo scroll_to_options

text \<open>What the component body returns: the \<^verbatim>\<open>div\<close> with its props and its one child.\<close>

record element =
  className :: string
  onClick :: closure
  display :: string
  children :: "node list"

record world =
  scrollTop :: real
  listeners :: "(string \<times> closure) list"
  calls :: "call list"
  fiber :: "(nat \<times> bool) option"
  next_id :: nat
  rendered :: "element option"

text \<open>
  \<^item> \<open>scrollTop\<close> is \<^verbatim>\<open>document.documentElement.scrollTop\<close>, a finite number;
  \<^item> \<open>listeners\<close> is the window's event listener list, in registration order;
  \<^item> \<open>calls\<close> is the trace of the calls made on the window, oldest first;
  \<^item> \<open>fiber\<close> is the mounted component instance with the cell of its one
    \<^verbatim>\<open>useState\<close> hook, \<open>None\<close> while no instance is mounted;
  \<^item> \<open>next_id\<close> numbers instances and function objects;
  \<^item> \<open>rendered\<close> is the element of the last execution of the component body.
\<close>

text \<open>
  \<^verbatim>\<open>addEventListener\<close> appends the listener unless the list already holds one with the
  same type and the same callback object. \<^verbatim>\<open>removeEventListener\<close> is part of the
  window although the component never calls it.
\<close>

definition addEventListener :: "string \<Rightarrow> closure \<Rightarrow> world \<Rightarrow> world" where
  "addEventListener ty cb w =
     w\<lparr>calls := calls w @ [AddEventListener ty cb],
       listeners := (if (ty, cb) \<in> set (listeners w) then listeners w
                     else listeners w @ [(ty, cb)])\<rparr>"

definition removeEventListener :: "string \<Rightarrow> closure \<Rightarrow> world \<Rightarrow> world" where
  "removeEventListener ty cb w =
     w\<lparr>calls := calls w @ [RemoveEventListener ty cb],
       listeners := removeAll (ty, cb) (listeners w)\<rparr>"

text \<open>
  \<^verbatim>\<open>window.scrollTo\<close> with smooth behavior starts an animation and returns at once; the
  offsets the animation passes through arrive later as scroll events.
\<close>

definition scrollTo :: "scroll_to_options \<Rightarrow> world \<Rightarrow> world" where
  "scrollTo opts w = w\<lparr>calls := calls w @ [ScrollTo opts]\<rparr>"

text \<open>
  \<^verbatim>\<open>useState(initial)\<close> creates the cell with \<open>initial\<close> on the first execution of the body of
  a new instance and returns the cell's value on every later one. The setter it hands
  out belongs to that instance: it writes the cell while the instance is mounted and
  does nothing afterwards.
\<close>

definition useState :: "bool \<Rightarrow> world \<Rightarrow> (bool \<times> nat) \<times> world" where
  "useState initial w =
     (case fiber w of
        Some (i, v) \<Rightarrow> ((v, i), w)
      | None \<Rightarrow> ((initial, next_id w),
                 w\<lparr>fiber := Some (next_id w, initial), next_id := Suc (next_id w)\<rparr>))"

definition setVisible :: "nat \<Rightarrow> bool \<Rightarrow> world \<Rightarrow> world" where
  "setVisible i v w =
     (case fiber w of
        Some (j, b) \<Rightarrow> if j = i then w\<lparr>fiber := Some (j, v)\<rparr> else w
      | None \<Rightarrow> w)"

subsection \<open>The component\<close>

text \<open>
  A function call completes normally with a value or throws. Neither arrow function of
  the component has a \<^verbatim>\<open>return\<close> or a \<^verbatim>\<open>throw\<close>, so both complete with
  \<^verbatim>\<open>undefined\<close>.
\<close>

datatype completion = Normal jsvalue | Throw jsvalue

text \<open>
  \<^verbatim>\<open>toggleVisible\<close>, lines 10 to 17. The source has an \<^verbatim>\<open>if\<close> and an \<^verbatim>\<open>else if\<close> and no
  final \<^verbatim>\<open>else\<close>; the model keeps the three ways out.
\<close>

definition toggleVisible :: "nat \<Rightarrow> world \<Rightarrow> completion \<times> world" where
  "toggleVisible i w =
     (let scrolled = scrollTop w in
      if scrolled > 300 then (Normal Undefined, setVisible i True w)
      else if scrolled \<le> 300 then (Normal Undefined, setVisible i False w)
      else (Normal Undefined, w))"

text \<open>\<^verbatim>\<open>scrollToTop\<close>, lines 19 to 24.\<close>

definition scrollToTop :: "world \<Rightarrow> completion \<times> world" where
  "scrollToTop w = (Normal Undefined, scrollTo \<lparr>top' = 0, behavior = Smooth\<rparr> w)"

text \<open>
  The component body, lines 7 to 37: the hook, the two arrow functions of this
  execution, the registration on the window, and the returned element. The class name
  comes from a style sheet module that is not part of the sources; it is kept as the
  expression the source writes.
\<close>

definition ScrollTop :: "world \<Rightarrow> element \<times> world" where
  "ScrollTop w0 =
     (let ((visible, i), w1) = useState False w0;
          k = next_id w1;
          w2 = w1\<lparr>next_id := Suc k\<rparr>;
          w3 = addEventListener ''scroll'' (ToggleVisibleFn i k) w2
      in (\<lparr>className = ''styles.scrollTop'',
           onClick = ScrollToTopFn k,
           display = (if visible then ''inline'' else ''none''),
           children = [Element ''BsFillCaretUpFill'' [(''size'', ''0.4em'')] []]\<rparr>,
          w3))"

subsection \<open>The life of the component\<close>

text \<open>
  Calling a function object runs the arrow function it stands for.
\<close>

fun invoke :: "closure \<Rightarrow> world \<Rightarrow> completion \<times> world" where
  "invoke (ToggleVisibleFn i k) w = toggleVisible i w"
| "invoke (ScrollToTopFn k) w = scrollToTop w"

text \<open>
  What can happen to the widget: the runtime executes the component body (the first
  execution mounts it), the page scrolls to an offset, the user clicks the rendered
  element, or the runtime unmounts the instance. The component registers no cleanup, so
  unmounting only drops the instance and its element. A scroll event stores the offset
  and calls the window's scroll listeners in order; a click calls the element's
  \<^verbatim>\<open>onClick\<close>. Both discard what the handler returns.
\<close>

datatype event = Render | Scroll real | Click | Unmount

definition scroll_callbacks :: "world \<Rightarrow> closure list" where
  "scroll_callbacks w = map snd (filter (\<lambda>l. fst l = ''scroll'') (listeners w))"

definition dispatch :: "closure list \<Rightarrow> world \<Rightarrow> world" where
  "dispatch cs w = fold (\<lambda>c w'. snd (invoke c w')) cs w"

fun step :: "event \<Rightarrow> world \<Rightarrow> world" where
  "step Render w = (let (el, w') = ScrollTop w in w'\<lparr>rendered := Some el\<rparr>)"
| "step (Scroll y) w = (let w1 = w\<lparr>scrollTop := y\<rparr> in dispatch (scroll_callbacks w1) w1)"
| "step Click w = (case rendered w of None \<Rightarrow> w | Some el \<Rightarrow> snd (invoke (onClick el) w))"
| "step Unmount w = w\<lparr>fiber := None, rendered := None\<rparr>"

definition run :: "event list \<Rightarrow> world \<Rightarrow> world" where
  "run evs w = fold step evs w"

definition init :: world where
  "init = \<lparr>scrollTop = 0, listeners = [], calls = [], fiber = None, next_id = 0,
           rendered = None\<rparr>"


text \<open>
  The flag and its owner, read off the hook cell: \<open>visible w\<close> is the widget's visibility
  flag and \<open>mounted w\<close> the mounted instance, both \<open>None\<close> while nothing is mounted.
\<close>

definition mounted :: "world \<Rightarrow> nat option" where
  "mounted w = map_option fst (fiber w)"

definition visible :: "world \<Rightarrow> bool option" where
  "visible w = map_option snd (fiber w)"

text \<open>
  The instance and the identity that the next execution of the component body gives to
  its scroll handler.
\<close>

definition body_key :: "world \<Rightarrow> nat \<times> nat" where
  "body_key w =
     (case fiber w of
        Some (i, b) \<Rightarrow> (i, next_id w)
      | None \<Rightarrow> (next_id w, Suc (next_id w)))"

text \<open>
  Three facts hold in every world the widget can reach: every listener on the window is
  a scroll handler whose identity has been handed out already, the mounted instance has
  a scroll handler on the window, and the rendered element's \<^verbatim>\<open>onClick\<close> is a
  \<^verbatim>\<open>scrollToTop\<close> function.
\<close>

definition allocated :: "world \<Rightarrow> bool" where
  "allocated w \<longleftrightarrow>
     (\<forall>l \<in> set (listeners w). \<exists>i k. l = (''scroll'', ToggleVisibleFn i k) \<and> k < next_id w)"

definition listening :: "world \<Rightarrow> bool" where
  "listening w \<longleftrightarrow>
     (\<forall>i. mounted w = Some i \<longrightarrow>
        (\<exists>k. (''scroll'', ToggleVisibleFn i k) \<in> set (listeners w)))"

definition clickable :: "world \<Rightarrow> bool" where
  "clickable w \<longleftrightarrow> (\<forall>el. rendered w = Some el \<longrightarrow> (\<exists>k. onClick el = ScrollToTopFn k))"

definition inv :: "world \<Rightarrow> bool" where
  "inv w \<longleftrightarrow> allocated w \<and> listening w \<and> clickable w"

section \<open>Text of markup\<close>

text \<open>
  A number placed in markup is shown as its decimal numeral. The text of a node is the
  text of its children in order, and \<open>includes_text s sub\<close> says that \<open>sub\<close> occurs in
  \<open>s\<close> as a run of consecutive characters.
\<close>

definition digit_char :: "nat \<Rightarrow> char" where
  "digit_char d = ''0123456789'' ! d"

fun digits :: "nat \<Rightarrow> string" where
  "digits n = (if n < 10 then [digit_char n] else digits (n div 10) @ [digit_char (n mod 10)])"

definition number_text :: "int \<Rightarrow> string" where
  "number_text i = (if i < 0 then CHR ''-'' # digits (nat (- i)) else digits (nat i))"

fun textContent :: "node \<Rightarrow> string" where
  "textContent (Element tg attrs cs) = concat (map textContent cs)"
| "textContent (Text s) = s"
| "textContent (Number i) = number_text i"

fun includes_text :: "string \<Rightarrow> string \<Rightarrow> bool" where
  "includes_text [] sub = (sub = [])"
| "includes_text (c # s) sub = (prefix sub (c # s) \<or> includes_text s sub)"

section \<open>The site configuration (src/theme.config.js)\<close>

text \<open>
  The module reads two things from outside: the system clock, through
  \<^verbatim>\<open>new Date()\<close>, and the process environment. The clock's reading is the local
  calendar date, of which \<^verbatim>\<open>getFullYear\<close> returns the year; the environment maps
  variable names to strings, and a variable that is not set reads as \<^verbatim>\<open>undefined\<close>.
\<close>

record date =
  year :: int
  month :: nat
  day :: nat

definition getFullYear :: "date \<Rightarrow> int" where
  "getFullYear d = year d"

definition process_env :: "(string \<Rightarrow> string option) \<Rightarrow> string \<Rightarrow> jsvalue" where
  "process_env env name = (case env name of None \<Rightarrow> Undefined | Some s \<Rightarrow> JString s)"

text \<open>Line 1: \<^verbatim>\<open>const YEAR = new Date().getFullYear()\<close>, with \<open>now\<close> the clock's reading.\<close>

definition YEAR :: "date \<Rightarrow> int" where
  "YEAR now = getFullYear now"

text \<open>
  Lines 8 to 23. The text after \<^verbatim>\<open><time>\<close> starts with the space that follows the
  element on its line; the copyright sign is the two bytes C2 A9. The style element's
  child is the template literal of lines 14 to 21, line breaks included.
\<close>

definition footer_css :: string where
  "footer_css =
     [CHR 0x0A] @ ''        footer {'' @
     [CHR 0x0A] @ ''          margin-top: 8rem;'' @
     [CHR 0x0A] @ ''        }'' @
     [CHR 0x0A] @ ''        a {'' @
     [CHR 0x0A] @ ''          float: right;'' @
     [CHR 0x0A] @ ''        }'' @
     [CHR 0x0A] @ ''      ''"

definition footer :: "date \<Rightarrow> node" where
  "footer now =
     Element ''footer'' []
       [Element ''small'' []
          [Element ''time'' [] [Number (YEAR now)],
           Text ('' '' @ [CHR 0xC2, CHR 0xA9] @ '' lando.''),
           Element ''a'' [(''href'', ''/feed.xml'')] [Text ''RSS'']],
        Element ''style'' [(''jsx'', ''true'')] [Text footer_css]]"

text \<open>Lines 3 to 26, the default export.\<close>

definition theme_config :: "(string \<Rightarrow> string option) \<Rightarrow> date \<Rightarrow> jsvalue" where
  "theme_config env now =
     JObject
       [(''cusdis'', JObject [(''appId'', process_env env ''NEXT_PUBLIC_CUSDIS_APP_ID'')]),
        (''darkMode'', JBool True),
        (''footer'', JElement (footer now)),
        (''navs'', JArray [])]"

text \<open>
  Reading an object: its own keys in order, and the value of a property
  (\<^verbatim>\<open>undefined\<close> when the object has no such property). The layout shows the
  configuration's footer element as it is, whenever it renders a page.
\<close>

fun own_keys :: "jsvalue \<Rightarrow> string list" where
  "own_keys (JObject kvs) = map fst kvs"
| "own_keys v = []"

fun property :: "string \<Rightarrow> jsvalue \<Rightarrow> jsvalue" where
  "property k (JObject kvs) = (case map_of kvs k of None \<Rightarrow> Undefined | Some v \<Rightarrow> v)"
| "property k v = Undefined"

fun rendered_footer :: "jsvalue \<Rightarrow> string" where
  "rendered_footer cfg = (case property ''footer'' cfg of JElement n \<Rightarrow> textContent n | _ \<Rightarrow> [])"

text \<open>The elements with a given tag inside a node, the node itself included, in document order.\<close>

fun elements_named :: "string \<Rightarrow> node \<Rightarrow> node list" where
  "elements_named tg (Element t attrs cs) =
     (if t = tg then [Element t attrs cs] else []) @ concat (map (elements_named tg) cs)"
| "elements_named tg n = []"

section \<open>A content page (src/unnamed/part_000)\<close>

text \<open>
  A content page starts with its front-matter, a list of keys with string values, and
  writes its own \<^verbatim>\<open>Head\<close> block, whose children go into the head of the rendered
  page. The page's body is not modelled. The title in the front-matter starts with the
  round pushpin sign, the four bytes F0 9F 93 8D.
\<close>

record page =
  front_matter :: "(string \<times> string) list"
  Head :: "node list"

definition pushpin :: string where
  "pushpin = [CHR 0xF0, CHR 0x9F, CHR 0x93, CHR 0x8D]"

definition post :: page where
  "post =
     \<lparr>front_matter =
        [(''title'', pushpin @ '' Maps in Javascript: Converting Arrays of Objects''),
         (''date'', ''2022-06-26''),
         (''description'',
            ''Using Maps in Javascript to make object data lookup more efficient''),
         (''tag'', ''web development, javascript, map, array, object''),
         (''author'', ''lando'')],
      Head =
        [Element ''meta''
           [(''name'', ''title''),
            (''content'', ''Maps in Javascript: Converting Arrays of Objects'')] [],
         Element ''meta''
           [(''name'', ''description''),
            (''content'',
               ''Using Maps in Javascript to make object data lookup more efficient'')] [],
         Element ''meta''
           [(''name'', ''keywords''),
            (''content'', ''web development, javascript, map, array, object'')] [],
         Element ''meta''
           [(''property'', ''og:description''),
            (''content'',
               ''Using Maps in Javascript to make object data lookup more efficient'')] [],
         Element ''meta''
           [(''property'', ''og:title''),
            (''content'', ''Maps in Javascript: Converting Arrays of Objects'')] [],
         Element ''link''
           [(''rel'', ''canonical''),
            (''href'',
               ''https://www.lando.blog/posts/javascript-convert-array-of-objects-to-map'')] [],
         Element ''title'' []
           [Text ''Maps in Javascript: Converting Arrays of Objects - lando.blog'']]\<rparr>"

text \<open>
  Reading a page: a field of the front-matter, the \<^verbatim>\<open>content\<close> of the \<^verbatim>\<open>meta\<close> elements
  that carry a given attribute, the text of the \<^verbatim>\<open>title\<close> elements, and every string
  the head holds (attribute values and text). A value appears in the head when one of
  those strings includes it.
\<close>

definition declared :: "string \<Rightarrow> page \<Rightarrow> string option" where
  "declared k p = map_of (front_matter p) k"

fun tag_of :: "node \<Rightarrow> string" where
  "tag_of (Element tg attrs cs) = tg"
| "tag_of n = []"

fun attribute :: "string \<Rightarrow> node \<Rightarrow> string option" where
  "attribute a (Element tg attrs cs) = map_of attrs a"
| "attribute a n = None"

definition meta_contents :: "string \<Rightarrow> string \<Rightarrow> node list \<Rightarrow> string option list" where
  "meta_contents key name h =
     map (attribute ''content'')
       (filter (\<lambda>n. tag_of n = ''meta'' \<and> attribute key n = Some name) h)"

definition title_texts :: "node list \<Rightarrow> string list" where
  "title_texts h = map textContent (filter (\<lambda>n. tag_of n = ''title'') h)"

fun node_strings :: "node \<Rightarrow> string list" where
  "node_strings (Element tg attrs cs) = map snd attrs @ concat (map node_strings cs)"
| "node_strings (Text s) = [s]"
| "node_strings (Number i) = [number_text i]"

definition head_strings :: "node list \<Rightarrow> string list" where
  "head_strings h = concat (map node_strings h)"

definition appears_in_head :: "string \<Rightarrow> node list \<Rightarrow> bool" where
  "appears_in_head v h = list_ex (\<lambda>s. includes_text s v) (head_strings h)"

section \<open>Properties of the widget\<close>

subsection \<open>The setter, the handlers and the component body\<close>

lemma setVisible_fields [simp]:
  "scrollTop (setVisible i v w) = scrollTop w"
  "listeners (setVisible i v w) = listeners w"
  "calls (setVisible i v w) = calls w"
  "next_id (setVisible i v w) = next_id w"
  "rendered (setVisible i v w) = rendered w"
  by (simp_all add: setVisible_def split: option.split prod.split)

lemma fiber_setVisible:
  "fiber (setVisible i v w) =
     (case fiber w of None \<Rightarrow> None | Some (j, b) \<Rightarrow> Some (j, if j = i then v else b))"
  by (simp add: setVisible_def split: option.split prod.split)

lemma toggleVisible_eq:
  "toggleVisible i w = (Normal Undefined, setVisible i (scrollTop w > 300) w)"
  by (simp add: toggleVisible_def Let_def not_less)


lemma invoke_fields [simp]:
  "scrollTop (snd (invoke c w)) = scrollTop w"
  "listeners (snd (invoke c w)) = listeners w"
  "next_id (snd (invoke c w)) = next_id w"
  "rendered (snd (invoke c w)) = rendered w"
  by (cases c; simp add: toggleVisible_eq scrollToTop_def scrollTo_def)+

lemma dispatch_Nil [simp]: "dispatch [] w = w"
  by (simp add: dispatch_def)

lemma dispatch_Cons [simp]: "dispatch (c # cs) w = dispatch cs (snd (invoke c w))"
  by (simp add: dispatch_def)

lemma dispatch_fields [simp]:
  "scrollTop (dispatch cs w) = scrollTop w"
  "listeners (dispatch cs w) = listeners w"
  "next_id (dispatch cs w) = next_id w"
  "rendered (dispatch cs w) = rendered w"
  by (induction cs arbitrary: w; simp)+

lemma run_Nil [simp]: "run [] w = w"
  by (simp add: run_def)

lemma run_Cons [simp]: "run (e # evs) w = run evs (step e w)"
  by (simp add: run_def)

lemma run_append: "run (evs @ evs') w = run evs' (run evs w)"
  by (simp add: run_def)

lemma run_snoc: "run (evs @ [e]) w = step e (run evs w)"
  by (simp add: run_def)

lemma useState_mounted:
  "fiber w = Some (i, b) \<Longrightarrow> useState b0 w = ((b, i), w)"
  by (simp add: useState_def)

lemma useState_unmounted:
  "fiber w = None \<Longrightarrow>
   useState b0 w = ((b0, next_id w), w\<lparr>fiber := Some (next_id w, b0), next_id := Suc (next_id w)\<rparr>)"
  by (simp add: useState_def)

lemma render_listeners:
  assumes "allocated w"
  shows "listeners (step Render w) =
           listeners w @ [(''scroll'', ToggleVisibleFn (fst (body_key w)) (snd (body_key w)))]"
proof -
  have fresh: "(''scroll'', ToggleVisibleFn i k) \<notin> set (listeners w)" if "next_id w \<le> k" for i k
    using assms that by (fastforce simp: allocated_def)
  show ?thesis
    by (cases "fiber w")
       (auto simp: ScrollTop_def useState_def addEventListener_def body_key_def Let_def fresh)
qed

lemma render_fiber:
  "fiber (step Render w) = (case fiber w of None \<Rightarrow> Some (next_id w, False) | Some f \<Rightarrow> Some f)"
  by (cases "fiber w") (auto simp: ScrollTop_def useState_def addEventListener_def Let_def)

lemma render_next_id:
  "next_id (step Render w) = Suc (snd (body_key w))"
  by (cases "fiber w") (auto simp: ScrollTop_def useState_def addEventListener_def Let_def body_key_def)

lemma render_rendered:
  "\<exists>el. rendered (step Render w) = Some el \<and> onClick el = ScrollToTopFn (snd (body_key w)) \<and>
     display el = (case fiber w of Some (i, True) \<Rightarrow> ''inline'' | _ \<Rightarrow> ''none'')"
  by (cases "fiber w") (auto simp: ScrollTop_def useState_def addEventListener_def Let_def body_key_def)

declare step.simps(1) [simp del]

lemma step_listeners_other:
  "e \<noteq> Render \<Longrightarrow> listeners (step e w) = listeners w"
  by (cases e) (simp_all add: Let_def split: option.split)

lemma step_next_id_other:
  "e \<noteq> Render \<Longrightarrow> next_id (step e w) = next_id w"
  by (cases e) (simp_all add: Let_def split: option.split)

lemma body_key_ge: "next_id w \<le> snd (body_key w)"
  by (simp add: body_key_def split: option.split)

lemma allocated_step: "allocated w \<Longrightarrow> allocated (step e w)"
proof (cases "e = Render")
  case True
  assume a: "allocated w"
  have "next_id w < next_id (step Render w)"
    using body_key_ge [of w] by (simp add: render_next_id)
  with a show ?thesis
    unfolding True allocated_def render_listeners [OF a] render_next_id
    by (auto simp: less_Suc_eq_le intro: less_le_trans less_imp_le)
next
  case False
  assume "allocated w"
  with False show ?thesis
    by (simp add: allocated_def step_listeners_other step_next_id_other)
qed

lemma fiber_dispatch:
  assumes "\<forall>c \<in> set cs. \<exists>i k. c = ToggleVisibleFn i k"
  shows "fiber (dispatch cs w) =
           (case fiber w of None \<Rightarrow> None
            | Some (j, b) \<Rightarrow> Some (j, if j \<in> owner ` set cs then scrollTop w > 300 else b))"
  using assms
proof (induction cs arbitrary: w)
  case Nil
  then show ?case by (simp split: option.split)
next
  case (Cons c cs)
  then obtain i k where c: "c = ToggleVisibleFn i k" by auto
  from Cons have "fiber (dispatch cs (snd (invoke c w))) =
           (case fiber (snd (invoke c w)) of None \<Rightarrow> None
            | Some (j, b) \<Rightarrow> Some (j, if j \<in> owner ` set cs then scrollTop (snd (invoke c w)) > 300 else b))"
    by simp
  then show ?case
    by (auto simp: c toggleVisible_eq fiber_setVisible split: option.split)
qed

lemma invoke_mounted [simp]: "mounted (snd (invoke c w)) = mounted w"
  by (cases c)
     (auto simp: mounted_def toggleVisible_eq fiber_setVisible scrollToTop_def scrollTo_def
           split: option.split)

lemma dispatch_mounted [simp]: "mounted (dispatch cs w) = mounted w"
  by (induction cs arbitrary: w) simp_all

lemma step_mounted:
  "mounted (step e w) =
     (case e of Render \<Rightarrow> (case mounted w of None \<Rightarrow> Some (next_id w) | Some i \<Rightarrow> Some i)
      | Unmount \<Rightarrow> None | _ \<Rightarrow> mounted w)"
proof (cases e)
  case Render
  then show ?thesis by (simp add: mounted_def render_fiber split: option.split)
next
  case (Scroll y)
  have "mounted (w\<lparr>scrollTop := y\<rparr>) = mounted w" by (simp add: mounted_def)
  then show ?thesis by (simp add: Scroll Let_def)
next
  case Click
  then show ?thesis by (simp split: option.split)
next
  case Unmount
  then show ?thesis by (simp add: mounted_def)
qed

lemma fst_body_key: "fst (body_key w) = (case mounted w of None \<Rightarrow> next_id w | Some i \<Rightarrow> i)"
  by (simp add: body_key_def mounted_def split: option.split)

lemma listening_step:
  assumes "allocated w" and "listening w"
  shows "listening (step e w)"
proof (cases "e = Render")
  case True
  show ?thesis
    using assms(2)
    unfolding True listening_def render_listeners [OF assms(1)] step_mounted fst_body_key
    by (auto split: option.splits)
next
  case False
  with assms(2) show ?thesis
    unfolding listening_def step_mounted step_listeners_other [OF False]
    by (cases e) simp_all
qed

lemma clickable_step: "clickable w \<Longrightarrow> clickable (step e w)"
proof (cases e)
  case Render
  from render_rendered [of w] show ?thesis
    unfolding Render clickable_def by auto
next
  case (Scroll y)
  assume "clickable w"
  then show ?thesis by (simp add: Scroll clickable_def Let_def)
next
  case Click
  assume "clickable w"
  then show ?thesis by (simp add: Click clickable_def split: option.split)
next
  case Unmount
  then show ?thesis by (simp add: clickable_def)
qed

lemma inv_init: "inv init"
  by (simp add: inv_def allocated_def listening_def clickable_def mounted_def init_def)

lemma inv_step: "inv w \<Longrightarrow> inv (step e w)"
  by (simp add: inv_def allocated_step listening_step clickable_step)

lemma inv_run: "inv w \<Longrightarrow> inv (run evs w)"
  by (induction evs arbitrary: w) (simp_all add: inv_step)

lemma inv_reachable: "inv (run evs init)"
  by (rule inv_run [OF inv_init])

subsection \<open>Scrolling, clicking and the trace of window calls\<close>

declare step.simps [simp del]

lemma scroll_callbacks_toggles:
  "allocated w \<Longrightarrow> \<forall>c \<in> set (scroll_callbacks w). \<exists>i k. c = ToggleVisibleFn i k"
  by (fastforce simp: allocated_def scroll_callbacks_def)

lemma scroll_callbacks_owner:
  "listening w \<Longrightarrow> mounted w = Some i \<Longrightarrow> i \<in> owner ` set (scroll_callbacks w)"
  by (force simp: listening_def scroll_callbacks_def)

lemma scroll_callbacks_offset [simp]: "scroll_callbacks (w\<lparr>scrollTop := y\<rparr>) = scroll_callbacks w"
  by (simp add: scroll_callbacks_def)

lemma allocated_offset [simp]: "allocated (w\<lparr>scrollTop := y\<rparr>) = allocated w"
  by (simp add: allocated_def)

lemma fiber_scroll:
  assumes "inv w" and "fiber w = Some (i, b)"
  shows "fiber (step (Scroll y) w) = Some (i, y > 300)"
proof -
  from assms(1) have a: "allocated w" and l: "listening w" by (simp_all add: inv_def)
  from assms(2) have "mounted w = Some i" by (simp add: mounted_def)
  with l have "i \<in> owner ` set (scroll_callbacks w)" by (rule scroll_callbacks_owner)
  then show ?thesis
    by (simp add: step.simps Let_def fiber_dispatch [OF scroll_callbacks_toggles [OF a]] assms(2))
qed

lemma run_example:
  "run [Render, Scroll 500, Render] init =
    \<lparr>scrollTop = 500,
     listeners = [(''scroll'', ToggleVisibleFn 0 1), (''scroll'', ToggleVisibleFn 0 2)],
     calls = [AddEventListener ''scroll'' (ToggleVisibleFn 0 1),
              AddEventListener ''scroll'' (ToggleVisibleFn 0 2)],
     fiber = Some (0, True), next_id = 3,
     rendered = Some \<lparr>className = ''styles.scrollTop'', onClick = ScrollToTopFn 2,
                       display = ''inline'',
                       children = [Element ''BsFillCaretUpFill'' [(''size'', ''0.4em'')] []]\<rparr>\<rparr>"
  by (simp add: init_def step.simps ScrollTop_def useState_def addEventListener_def Let_def
       scroll_callbacks_def toggleVisible_def setVisible_def)



text \<open>
  Had the component called \<^verbatim>\<open>removeEventListener\<close>, the trace would show it and the
  listener would be gone.
\<close>

lemma removeEventListener_traced:
  "RemoveEventListener ty cb \<in> set (calls (removeEventListener ty cb w)) \<and>
   (ty, cb) \<notin> set (listeners (removeEventListener ty cb w))"
  by (simp add: removeEventListener_def)

lemma invoke_no_removal:
  "RemoveEventListener ty cb \<in> set (calls (snd (invoke c w))) \<Longrightarrow>
   RemoveEventListener ty cb \<in> set (calls w)"
  by (cases c) (simp_all add: toggleVisible_eq scrollToTop_def scrollTo_def)

lemma dispatch_no_removal:
  "RemoveEventListener ty cb \<in> set (calls (dispatch cs w)) \<Longrightarrow>
   RemoveEventListener ty cb \<in> set (calls w)"
  by (induction cs arbitrary: w) (auto dest: invoke_no_removal)

lemma render_calls:
  "calls (step Render w) =
     calls w @ [AddEventListener ''scroll'' (ToggleVisibleFn (fst (body_key w)) (snd (body_key w)))]"
  by (cases "fiber w")
     (auto simp: step.simps ScrollTop_def useState_def addEventListener_def body_key_def Let_def)

lemma step_no_removal:
  "RemoveEventListener ty cb \<in> set (calls (step e w)) \<Longrightarrow>
   RemoveEventListener ty cb \<in> set (calls w)"
proof (cases e)
  case Render
  assume "RemoveEventListener ty cb \<in> set (calls (step e w))"
  then show ?thesis by (simp add: Render render_calls)
next
  case (Scroll y)
  assume "RemoveEventListener ty cb \<in> set (calls (step e w))"
  then have "RemoveEventListener ty cb \<in> set (calls (w\<lparr>scrollTop := y\<rparr>))"
    unfolding Scroll step.simps Let_def by (rule dispatch_no_removal)
  then show ?thesis by simp
next
  case Click
  assume "RemoveEventListener ty cb \<in> set (calls (step e w))"
  then show ?thesis
    by (cases "rendered w") (auto simp: Click step.simps dest: invoke_no_removal)
next
  case Unmount
  assume "RemoveEventListener ty cb \<in> set (calls (step e w))"
  then show ?thesis by (simp add: Unmount step.simps)
qed

lemma run_no_removal:
  "RemoveEventListener ty cb \<in> set (calls (run evs w)) \<Longrightarrow>
   RemoveEventListener ty cb \<in> set (calls w)"
  by (induction evs arbitrary: w) (auto dest: step_no_removal)

lemma step_listeners_prefix: "prefix (listeners w) (listeners (step e w))"
proof (cases "e = Render")
  case True
  show ?thesis
    by (cases "fiber w")
       (auto simp: True step.simps ScrollTop_def useState_def addEventListener_def Let_def)
next
  case False
  then show ?thesis by (simp add: step_listeners_other)
qed

lemma run_listeners_prefix: "prefix (listeners w) (listeners (run evs w))"
proof (induction evs arbitrary: w)
  case Nil
  show ?case by simp
next
  case (Cons e evs)
  have "prefix (listeners w) (listeners (step e w))" by (rule step_listeners_prefix)
  also have "prefix (listeners (step e w)) (listeners (run evs (step e w)))" by (rule Cons.IH)
  finally show ?case by simp
qed

lemma step_listeners_length:
  "allocated w \<Longrightarrow> length (listeners (step e w)) = length (listeners w) + (if e = Render then 1 else 0)"
  by (cases "e = Render") (simp_all add: render_listeners step_listeners_other)

lemma run_listeners_length:
  "inv w \<Longrightarrow> length (listeners (run evs w)) = length (listeners w) + count_list evs Render"
proof (induction evs arbitrary: w)
  case Nil
  show ?case by simp
next
  case (Cons e evs)
  from Cons.prems have "allocated w" by (simp add: inv_def)
  from Cons.IH [OF inv_step [OF Cons.prems]] step_listeners_length [OF this, of e]
  show ?case by simp
qed

lemma distinct_step:
  assumes "allocated w" and "distinct (listeners w)"
  shows "distinct (listeners (step e w))"
proof (cases "e = Render")
  case True
  have "(''scroll'', ToggleVisibleFn (fst (body_key w)) (snd (body_key w))) \<notin> set (listeners w)"
    using assms(1) body_key_ge [of w] by (fastforce simp: allocated_def)
  with assms(2) show ?thesis by (simp add: True render_listeners [OF assms(1)])
next
  case False
  with assms(2) show ?thesis by (simp add: step_listeners_other)
qed

lemma distinct_run:
  "inv w \<Longrightarrow> distinct (listeners w) \<Longrightarrow> distinct (listeners (run evs w))"
proof (induction evs arbitrary: w)
  case Nil
  then show ?case by simp
next
  case (Cons e evs)
  from Cons.prems have "allocated w" by (simp add: inv_def)
  from Cons.IH [OF inv_step [OF Cons.prems(1)] distinct_step [OF this Cons.prems(2)]]
  show ?case by simp
qed

lemma single_instance:
  assumes "Unmount \<notin> set evs"
  shows "(mounted (run evs init) = None \<and> next_id (run evs init) = 0 \<and>
            listeners (run evs init) = []) \<or>
         (mounted (run evs init) = Some 0 \<and>
            (\<forall>l \<in> set (listeners (run evs init)). owner (snd l) = 0))"
  using assms
proof (induction evs rule: rev_induct)
  case Nil
  show ?case by (simp add: mounted_def init_def)
next
  case (snoc e evs)
  let ?w = "run evs init"
  have a: "allocated ?w" using inv_reachable [of evs] by (simp add: inv_def)
  from snoc have ih:
    "(mounted ?w = None \<and> next_id ?w = 0 \<and> listeners ?w = []) \<or>
     (mounted ?w = Some 0 \<and> (\<forall>l \<in> set (listeners ?w). owner (snd l) = 0))"
    and e: "e \<noteq> Unmount" by auto
  show ?case
  proof (cases "e = Render")
    case True
    from ih show ?thesis
      unfolding run_snoc True step_mounted render_listeners [OF a] fst_body_key
      by auto
  next
    case False
    from ih e False show ?thesis
      unfolding run_snoc step_mounted step_listeners_other [OF False] step_next_id_other [OF False]
      by (cases e) simp_all
  qed
qed

subsection \<open>The claims about the widget\<close>

text \<open>
  C1. While the widget is mounted, every scroll event sets its visibility flag to true
  exactly when the document's vertical scroll offset is strictly greater than 300, and
  to false when the offset is less than or equal to 300; at an offset of exactly 300
  the flag is false. The worlds are those the widget reaches from the initial one by
  any sequence of events.
\<close>

theorem visible_iff_offset_above_300:
  assumes "mounted (run evs init) \<noteq> None"
  shows "visible (step (Scroll y) (run evs init)) = Some (y > 300) \<and>
         visible (step (Scroll 300) (run evs init)) = Some False"
proof -
  from assms obtain i b where f: "fiber (run evs init) = Some (i, b)"
    by (auto simp: mounted_def)
  show ?thesis
    by (simp add: visible_def fiber_scroll [OF inv_reachable f])
qed

theorem visible_iff_offset_above_300_witness:
  "mounted (run [Render] init) \<noteq> None \<and>
   visible (step (Scroll 301) (run [Render] init)) = Some True \<and>
   visible (step (Scroll 300) (run [Render] init)) = Some False"
proof -
  have m: "mounted (run [Render] init) \<noteq> None"
    by (simp add: step_mounted split: option.split)
  from visible_iff_offset_above_300 [OF m, of 301] m show ?thesis by simp
qed

text \<open>
  C4. For every click on the widget while it is visible (its element is rendered with
  display \<^verbatim>\<open>inline\<close>), the click handler completes normally with \<^verbatim>\<open>undefined\<close>, and
  the only thing it changes is the trace of window calls, which grows by exactly one
  \<^verbatim>\<open>scrollTo\<close> with top 0 and smooth behavior. The handler has no other way out.
\<close>

theorem click_requests_one_smooth_scroll_to_top:
  assumes "rendered (run evs init) = Some el" and "display el = ''inline''"
  shows "invoke (onClick el) (run evs init) =
           (Normal Undefined,
            (run evs init)\<lparr>calls := calls (run evs init) @ [ScrollTo \<lparr>top' = 0, behavior = Smooth\<rparr>]\<rparr>) \<and>
         step Click (run evs init) =
           (run evs init)\<lparr>calls := calls (run evs init) @ [ScrollTo \<lparr>top' = 0, behavior = Smooth\<rparr>]\<rparr>"
proof -
  have "clickable (run evs init)"
    using inv_reachable [of evs] by (simp add: inv_def)
  with assms(1) obtain k where "onClick el = ScrollToTopFn k"
    by (auto simp: clickable_def)
  with assms(1) show ?thesis
    by (simp add: step.simps scrollToTop_def scrollTo_def)
qed

theorem click_requests_one_smooth_scroll_to_top_witness:
  "(\<exists>el. rendered (run [Render, Scroll 500, Render] init) = Some el \<and> display el = ''inline'' \<and>
      invoke (onClick el) (run [Render, Scroll 500, Render] init) =
        (Normal Undefined,
         (run [Render, Scroll 500, Render] init)
           \<lparr>calls := [AddEventListener ''scroll'' (ToggleVisibleFn 0 1),
                      AddEventListener ''scroll'' (ToggleVisibleFn 0 2),
                      ScrollTo \<lparr>top' = 0, behavior = Smooth\<rparr>]\<rparr>)) \<and>
   calls (step Click (run [Render, Scroll 500, Render] init)) =
     [AddEventListener ''scroll'' (ToggleVisibleFn 0 1),
      AddEventListener ''scroll'' (ToggleVisibleFn 0 2),
      ScrollTo \<lparr>top' = 0, behavior = Smooth\<rparr>]"
proof -
  let ?el = "\<lparr>className = ''styles.scrollTop'', onClick = ScrollToTopFn 2, display = ''inline'',
              children = [Element ''BsFillCaretUpFill'' [(''size'', ''0.4em'')] []]\<rparr>"
  have r: "rendered (run [Render, Scroll 500, Render] init) = Some ?el"
    by (simp only: run_example world.simps)
  have d: "display ?el = ''inline''" by simp
  have c: "calls (run [Render, Scroll 500, Render] init) =
             [AddEventListener ''scroll'' (ToggleVisibleFn 0 1),
              AddEventListener ''scroll'' (ToggleVisibleFn 0 2)]"
    by (simp only: run_example world.simps)
  from click_requests_one_smooth_scroll_to_top [OF r d] r d c show ?thesis
    by (intro conjI exI [of _ ?el]) simp_all
qed

text \<open>
  C5. The visibility flag is a boolean that the first execution of the component body
  creates with the value false: right after the instance is created, before any scroll
  event, the flag is false and the element is rendered with display \<^verbatim>\<open>none\<close>.
\<close>

theorem visible_initially_false:
  assumes "mounted w = None"
  shows "visible (step Render w) = Some False \<and>
         (\<exists>el. rendered (step Render w) = Some el \<and> display el = ''none'')"
proof -
  from assms have f: "fiber w = None" by (simp add: mounted_def)
  from render_rendered [of w] f show ?thesis
    by (auto simp: visible_def render_fiber)
qed

theorem visible_initially_false_witness:
  "mounted init = None \<and> visible (step Render init) = Some False \<and>
   (\<exists>el. rendered (step Render init) = Some el \<and> display el = ''none'')"
proof -
  have m: "mounted init = None" by (simp add: mounted_def init_def)
  from visible_initially_false [OF m] m show ?thesis by simp
qed

text \<open>
  C6. The widget registers a scroll listener on the window and never deregisters it.
  Whatever events happen, unmounting included, the trace of window calls holds no
  \<^verbatim>\<open>removeEventListener\<close>; the listeners registered at any moment are still
  registered, in the same order, after any further events; and each execution of the
  component body adds its scroll handler to the window's list.
\<close>

theorem scroll_listener_never_removed:
  "RemoveEventListener ty cb \<notin> set (calls (run evs init)) \<and>
   prefix (listeners (run evs init)) (listeners (run (evs @ evs') init)) \<and>
   (\<exists>i k. listeners (step Render (run evs init)) =
            listeners (run evs init) @ [(''scroll'', ToggleVisibleFn i k)])"
proof -
  have "RemoveEventListener ty cb \<notin> set (calls init)" by (simp add: init_def)
  then have "RemoveEventListener ty cb \<notin> set (calls (run evs init))"
    by (auto dest: run_no_removal)
  moreover have "prefix (listeners (run evs init)) (listeners (run (evs @ evs') init))"
    unfolding run_append by (rule run_listeners_prefix)
  moreover have "allocated (run evs init)"
    using inv_reachable [of evs] by (simp add: inv_def)
  ultimately show ?thesis by (simp add: render_listeners)
qed

theorem scroll_listener_never_removed_witness:
  "RemoveEventListener ''scroll'' (ToggleVisibleFn 0 1) \<notin> set (calls (run [Render, Unmount] init)) \<and>
   prefix (listeners (run [Render] init)) (listeners (run ([Render] @ [Unmount, Scroll 10]) init)) \<and>
   listeners (run [Render, Unmount] init) = [(''scroll'', ToggleVisibleFn 0 1)]"
proof -
  have "listeners (run [Render, Unmount] init) = [(''scroll'', ToggleVisibleFn 0 1)]"
    by (simp add: init_def step.simps ScrollTop_def useState_def addEventListener_def Let_def)
  with scroll_listener_never_removed [of "''scroll''" "ToggleVisibleFn 0 1" "[Render, Unmount]"]
    scroll_listener_never_removed [of "''scroll''" "ToggleVisibleFn 0 1" "[Render]" "[Unmount, Scroll 10]"]
  show ?thesis by simp
qed



text \<open>
  C10. The scroll listener is registered on every execution of the component body, not
  once per mount. After any sequence of events the window holds as many listeners as
  the body was executed, all different function objects, all scroll handlers of the
  component; when the instance was never unmounted they all belong to that one
  instance.
\<close>

theorem one_listener_per_render:
  "length (listeners (run evs init)) = count_list evs Render \<and>
   distinct (listeners (run evs init)) \<and>
   (\<forall>l \<in> set (listeners (run evs init)). \<exists>i k. l = (''scroll'', ToggleVisibleFn i k)) \<and>
   (Unmount \<notin> set evs \<longrightarrow> (\<forall>l \<in> set (listeners (run evs init)). owner (snd l) = 0))"
proof -
  have "length (listeners (run evs init)) = count_list evs Render"
    using run_listeners_length [OF inv_init, of evs] by (simp add: init_def)
  moreover have "distinct (listeners (run evs init))"
    by (rule distinct_run [OF inv_init]) (simp add: init_def)
  moreover have "\<forall>l \<in> set (listeners (run evs init)). \<exists>i k. l = (''scroll'', ToggleVisibleFn i k)"
    using inv_reachable [of evs] by (fastforce simp: inv_def allocated_def)
  moreover have "Unmount \<notin> set evs \<longrightarrow> (\<forall>l \<in> set (listeners (run evs init)). owner (snd l) = 0)"
    using single_instance [of evs] by fastforce
  ultimately show ?thesis by simp
qed

theorem one_listener_per_render_witness:
  "Unmount \<notin> set [Render, Scroll 500, Render] \<and>
   count_list [Render, Scroll 500, Render] Render = 2 \<and>
   length (listeners (run [Render, Scroll 500, Render] init)) = 2 \<and>
   distinct (listeners (run [Render, Scroll 500, Render] init)) \<and>
   list_all (\<lambda>l. owner (snd l) = 0) (listeners (run [Render, Scroll 500, Render] init))"
proof -
  have u: "Unmount \<notin> set [Render, Scroll 500, Render]" by simp
  have c: "count_list [Render, Scroll 500, Render] Render = 2" by simp
  from one_listener_per_render [of "[Render, Scroll 500, Render]"] u c show ?thesis
    by (simp add: list_all_iff)
qed

section \<open>Properties of the site configuration\<close>

text \<open>\<open>includes_text\<close> is the contiguous sublist relation of the list library.\<close>

lemma includes_text_sublist: "includes_text s sub = sublist sub s"
  by (induction s) (auto simp: sublist_Cons_right)

lemma includes_text_start: "includes_text (sub @ rest) sub"
  by (simp add: includes_text_sublist)

lemma rendered_footer_text:
  "rendered_footer (theme_config env now) =
     number_text (getFullYear now) @ '' '' @ [CHR 0xC2, CHR 0xA9] @ '' lando.'' @ ''RSS'' @ footer_css"
  by (simp add: theme_config_def footer_def YEAR_def)

text \<open>
  C2. For any system clock date, the footer produced by the site configuration contains
  the current year. The module reads the clock once, on line 1, and builds the footer
  element from that reading in the same evaluation; \<open>now\<close> is that reading. The
  footer's text includes the decimal numeral of the year of \<open>now\<close>, and that numeral is
  the whole text of the footer's one \<^verbatim>\<open>time\<close> element.
\<close>

theorem footer_contains_current_year:
  "includes_text (rendered_footer (theme_config env now)) (number_text (getFullYear now)) \<and>
   property ''footer'' (theme_config env now) = JElement (footer now) \<and>
   map textContent (elements_named ''time'' (footer now)) = [number_text (getFullYear now)]"
  unfolding rendered_footer_text
  by (simp add: includes_text_start theme_config_def footer_def YEAR_def)

theorem footer_contains_current_year_witness:
  "includes_text
     (rendered_footer (theme_config (\<lambda>v. None) \<lparr>year = 2022, month = 6, day = 26\<rparr>)) ''2022'' \<and>
   map textContent (elements_named ''time'' (footer \<lparr>year = 2022, month = 6, day = 26\<rparr>)) =
     [''2022'']"
proof -
  have n: "number_text (getFullYear \<lparr>year = 2022, month = 6, day = 26\<rparr>) = ''2022''"
    by (simp add: getFullYear_def number_text_def digit_char_def)
  note t = footer_contains_current_year
             [of "\<lambda>v. None" "\<lparr>year = 2022, month = 6, day = 26\<rparr>", unfolded n]
  from t show ?thesis by blast
qed

text \<open>
  C7. The exported configuration object has exactly the four recognized options, in
  this order: \<^verbatim>\<open>cusdis\<close>, an object whose one field is \<^verbatim>\<open>appId\<close>; \<^verbatim>\<open>darkMode\<close>, a
  boolean; \<^verbatim>\<open>footer\<close>, a markup element; and \<^verbatim>\<open>navs\<close>, an array.
\<close>

theorem theme_config_options:
  "own_keys (theme_config env now) = [''cusdis'', ''darkMode'', ''footer'', ''navs''] \<and>
   property ''cusdis'' (theme_config env now) =
     JObject [(''appId'', process_env env ''NEXT_PUBLIC_CUSDIS_APP_ID'')] \<and>
   property ''darkMode'' (theme_config env now) = JBool True \<and>
   property ''footer'' (theme_config env now) = JElement (footer now) \<and>
   (\<exists>entries. property ''navs'' (theme_config env now) = JArray entries)"
  by (simp add: theme_config_def)

text \<open>
  C9. In the shipped configuration the \<^verbatim>\<open>navs\<close> array is empty: the layout receives no
  navigation entry.
\<close>

theorem navs_empty:
  "property ''navs'' (theme_config env now) = JArray []"
  by (simp add: theme_config_def)

section \<open>Properties of the content page\<close>

text \<open>
  C3, as the code has it. In the content page of the sources, the description and the
  tag of the front-matter are, character for character, the content of the head's
  \<^verbatim>\<open>description\<close> and \<^verbatim>\<open>og:description\<close> elements and of its \<^verbatim>\<open>keywords\<close> element. The
  title is not: the head's \<^verbatim>\<open>title\<close> and \<^verbatim>\<open>og:title\<close> elements hold the front-matter's
  title without the pushpin sign and the space that start it, and the \<^verbatim>\<open>title\<close>
  element's text adds the site's name to that.
\<close>

theorem head_metadata_of_post:
  "meta_contents ''name'' ''description'' (Head post) = [declared ''description'' post] \<and>
   meta_contents ''property'' ''og:description'' (Head post) = [declared ''description'' post] \<and>
   meta_contents ''name'' ''keywords'' (Head post) = [declared ''tag'' post] \<and>
   map (map_option (\<lambda>t. pushpin @ '' '' @ t)) (meta_contents ''name'' ''title'' (Head post)) =
     [declared ''title'' post] \<and>
   map (map_option (\<lambda>t. pushpin @ '' '' @ t)) (meta_contents ''property'' ''og:title'' (Head post)) =
     [declared ''title'' post] \<and>
   map (\<lambda>t. Some (pushpin @ '' '' @ t)) (title_texts (Head post)) =
     [map_option (\<lambda>t. t @ '' - lando.blog'') (declared ''title'' post)]"
  by (simp add: declared_def post_def meta_contents_def title_texts_def)

text \<open>
  C3, as it is stated, asks for every declared field to appear unchanged in the head.
  The title of the front-matter starts with the pushpin sign, and no string of the
  head includes that title.
\<close>

theorem front_matter_title_not_in_head:
  "declared ''title'' post = Some (pushpin @ '' Maps in Javascript: Converting Arrays of Objects'') \<and>
   \<not> appears_in_head (pushpin @ '' Maps in Javascript: Converting Arrays of Objects'') (Head post)"
  by (simp add: declared_def post_def appears_in_head_def head_strings_def pushpin_def)

end
